theory Spec2Isabelle
  imports Main "HOL-Library.AList"
begin

section \<open>Lead intake from a form spreadsheet: the poll cycle of \<open>src/landing/main.py\<close>\<close>

text \<open>
  The program polls one sheet of a spreadsheet, turns every row it has not seen into a
  submission (a dict from column name to cell), stores it in PostgreSQL, notifies by
  Telegram and e-mail, and records in \<open>state.json\<close> how many rows it has consumed.

  The embedding is shallow. Every call to an external service (Sheets API, PostgreSQL,
  Telegram, SMTP, the file system) is an outcome read from a record of outcomes, and
  every such call the cycle makes is appended to a trace of events, so that "no append",
  "no dispatch" and "no write" are statements about the trace. Strings are \<open>string\<close>
  (lists of 8-bit characters), Python integers are \<open>int\<close>, a submission is an association
  list in insertion order, and the watermark dict is a map. The Telegram chat id, the one
  string whose characters the program inspects (\<open>str.isdigit\<close>, \<open>int\<close>), is a list of
  Unicode code points.
\<close>

subsection \<open>Data\<close>

type_synonym row = "string list"

text \<open>A Python dict of strings, in insertion order; \<open>d[k] = v\<close> is \<open>AList.update k v d\<close>
  (an existing key keeps its position and takes the new value, a new key goes last).\<close>

type_synonym submission = "(string \<times> string) list"

text \<open>\<open>StateManager.state\<close>: the dict loaded from \<open>state.json\<close>, from the composite key to
  the last processed row. The model covers the files the program itself writes (a JSON
  object of integers); any integer may be stored, also a negative one.\<close>

type_synonym state = "string \<rightharpoonup> int"

text \<open>What is on disk under \<open>STATE_FILE\<close>: no file, a file \<open>json.load\<close> rejects, or a
  JSON object.\<close>

datatype state_file = NoFile | Unreadable | Content state

text \<open>How \<open>StateManager.save\<close> ends. \<open>open(STATE_FILE, 'w')\<close> may raise, and then the file
  is as it was; once it has returned the file is truncated, and a failure of
  \<open>json.dump\<close> or of the closing flush leaves a file that is not JSON. Both exceptions
  are caught and logged by \<open>save\<close>.\<close>

datatype save_outcome = SaveOk | OpenFails | DumpFails

text \<open>How \<open>spreadsheets().values().get(...).execute()\<close> ends: the value of
  \<open>result.get('values', [])\<close>, an \<open>HttpError\<close> with its status, or any other exception.\<close>

datatype api_outcome = ApiValues "row list" | ApiHttpError nat | ApiException

text \<open>How \<open>telegram_bot.send_message\<close> ends inside \<open>_send\<close>: it returns, it raises
  \<open>TelegramError\<close> (caught in \<open>_send\<close>), or something else is raised (caught by the handler
  of \<open>send_telegram\<close>).\<close>

datatype tg_outcome = TgSent | TgTelegramError | TgOtherException

text \<open>The calls that leave the process, in the order made. The flag of an insert or a send
  says whether the call succeeded.\<close>

datatype event =
    CreateTable
  | LeadInsert submission bool
  | TelegramSend int submission bool
  | EmailSend string submission bool
  | StateWrite string int save_outcome

text \<open>A Python \<open>str\<close> as the list of its code points.\<close>

type_synonym ustring = "nat list"

text \<open>The environment of the process. First the variables \<open>Config\<close> reads (\<open>None\<close>: not
  set). Then what the interpreter brings and the repository does not contain, taken as
  parameters: for the code points from 128 on, whether the Unicode database gives the
  character the property \<open>str.isdigit\<close> tests (numeric type digit or decimal) and its value as
  a decimal digit, if it has one; and the limit \<open>sys.get_int_max_str_digits()\<close> on the
  digits \<open>int\<close> converts (0: no limit).\<close>

record environ =
  GOOGLE_SHEET_ID :: "string option"
  GOOGLE_SHEET_NAME :: "string option"
  USE_POSTGRESQL :: "string option"
  TELEGRAM_BOT_TOKEN :: "string option"
  TELEGRAM_CHAT_ID :: "ustring option"
  EMAIL_TO :: "string option"
  unicode_digit :: "nat \<Rightarrow> bool"
  unicode_decimal :: "nat \<Rightarrow> nat option"
  int_max_str_digits :: nat

text \<open>The outcomes of the external calls of one cycle. The per-row outcomes are indexed by
  the loop counter \<open>i\<close> of \<open>enumerate(new_rows, 1)\<close>.\<close>

record services =
  credentials_ok :: bool
  api_result :: api_outcome
  pg_connect_ok :: bool
  bot_ctor_ok :: bool
  insert_ok :: "nat \<Rightarrow> bool"
  telegram_result :: "nat \<Rightarrow> tg_outcome"
  email_ok :: "nat \<Rightarrow> bool"
  state_write :: save_outcome

text \<open>Whether a \<open>try\<close> block ran to its end (or to a \<open>return\<close>), or left by an exception.\<close>

datatype attempt = Done | Raised

subsection \<open>Python primitives\<close>

text \<open>\<open>os.getenv(name, default)\<close>.\<close>

definition getenv :: "string option \<Rightarrow> string \<Rightarrow> string" where
  "getenv v dflt = (case v of None \<Rightarrow> dflt | Some s \<Rightarrow> s)"

text \<open>Truth value of an \<open>Optional[str]\<close>: \<open>None\<close> and \<open>''\<close> are false.\<close>

definition truthy :: "'a list option \<Rightarrow> bool" where
  "truthy v = (case v of None \<Rightarrow> False | Some s \<Rightarrow> s \<noteq> [])"

text \<open>\<open>str.lower\<close> on the bytes of a string: the ASCII capitals change, no other
  character becomes one of the letters the result is compared with.\<close>

definition lower_char :: "char \<Rightarrow> char" where
  "lower_char c =
     (let n = (of_char c :: nat) in if 65 \<le> n \<and> n \<le> 90 then char_of (n + 32) else c)"

definition lower :: "string \<Rightarrow> string" where
  "lower s = map lower_char s"

text \<open>The code points of an ASCII literal.\<close>

definition codepoints :: "string \<Rightarrow> ustring" where
  "codepoints s = map of_char s"

text \<open>\<open>str.isdigit\<close>: the string is not empty and every character is a digit. Below 128
  the digits are \<open>0\<close> to \<open>9\<close> (code points 48 to 57); from 128 on the Unicode database of the
  interpreter decides.\<close>

definition char_isdigit :: "environ \<Rightarrow> nat \<Rightarrow> bool" where
  "char_isdigit env c = (if c < 128 then 48 \<le> c \<and> c \<le> 57 else unicode_digit env c)"

definition isdigit :: "environ \<Rightarrow> ustring \<Rightarrow> bool" where
  "isdigit env s = (s \<noteq> [] \<and> list_all (char_isdigit env) s)"

text \<open>\<open>int(s)\<close> for a string \<open>s\<close> with \<open>s.isdigit()\<close>, the only strings it is called on:
  every decimal digit, of whatever script, counts with its value; \<open>None\<close> stands for
  \<open>ValueError\<close>, raised when a character is a digit without a decimal value (a superscript
  digit, say) or when the string has more digits than the limit allows.\<close>

definition digit_value :: "environ \<Rightarrow> nat \<Rightarrow> nat option" where
  "digit_value env c =
     (if c < 128 then (if 48 \<le> c \<and> c \<le> 57 then Some (c - 48) else None)
      else unicode_decimal env c)"

fun int_digits :: "environ \<Rightarrow> ustring \<Rightarrow> int \<Rightarrow> int option" where
  "int_digits env [] n = Some n"
| "int_digits env (c # cs) n =
     (case digit_value env c of
        None \<Rightarrow> None
      | Some d \<Rightarrow> int_digits env cs (10 * n + int d))"

definition py_int :: "environ \<Rightarrow> ustring \<Rightarrow> int option" where
  "py_int env s =
     (if 0 < int_max_str_digits env \<and> int_max_str_digits env < length s then None
      else int_digits env s 0)"

text \<open>The slice \<open>xs[i:]\<close>: a negative start counts from the end and is clipped at 0.\<close>

definition slice_from :: "'a list \<Rightarrow> int \<Rightarrow> 'a list" where
  "slice_from xs i =
     (if i < 0 then drop (nat (int (length xs) + i)) xs else drop (nat i) xs)"

subsection \<open>Config\<close>

definition get_sheet_id :: "environ \<Rightarrow> string" where
  "get_sheet_id env = getenv (GOOGLE_SHEET_ID env) []"

definition get_sheet_name :: "environ \<Rightarrow> string" where
  "get_sheet_name env = getenv (GOOGLE_SHEET_NAME env) ''Form Responses 1''"

definition use_postgresql :: "environ \<Rightarrow> bool" where
  "use_postgresql env = (lower (getenv (USE_POSTGRESQL env) ''true'') = ''true'')"

definition get_telegram_token :: "environ \<Rightarrow> string option" where
  "get_telegram_token env = TELEGRAM_BOT_TOKEN env"

definition get_telegram_chat_id :: "environ \<Rightarrow> ustring option" where
  "get_telegram_chat_id env = TELEGRAM_CHAT_ID env"

definition get_email_to :: "environ \<Rightarrow> string" where
  "get_email_to env = getenv (EMAIL_TO env) []"

subsection \<open>StateManager\<close>

text \<open>\<open>load\<close>: the dict of the file; \<open>{}\<close> when there is no file or reading it raises.\<close>

definition load :: "state_file \<Rightarrow> state" where
  "load f = (case f of NoFile \<Rightarrow> Map.empty | Unreadable \<Rightarrow> Map.empty | Content m \<Rightarrow> m)"

text \<open>\<open>save\<close>: the file afterwards. It never raises.\<close>

definition save :: "save_outcome \<Rightarrow> state \<Rightarrow> state_file \<Rightarrow> state_file" where
  "save outcome st f =
     (case outcome of SaveOk \<Rightarrow> Content st | OpenFails \<Rightarrow> f | DumpFails \<Rightarrow> Unreadable)"

text \<open>The composite key \<open>f"{sheet_id}:{sheet_name}"\<close>.\<close>

definition make_key :: "string \<Rightarrow> string \<Rightarrow> string" where
  "make_key sid sname = sid @ '':'' @ sname"

definition get_last_row :: "state \<Rightarrow> string \<Rightarrow> string \<Rightarrow> int" where
  "get_last_row st sid sname = (case st (make_key sid sname) of None \<Rightarrow> 1 | Some n \<Rightarrow> n)"

text \<open>\<open>set_last_row\<close>: the dict and the file afterwards.\<close>

definition set_last_row ::
  "save_outcome \<Rightarrow> state \<times> state_file \<Rightarrow> string \<Rightarrow> string \<Rightarrow> int \<Rightarrow> state \<times> state_file" where
  "set_last_row outcome sf sid sname n =
     (let st' = (fst sf)(make_key sid sname \<mapsto> n) in (st', save outcome st' (snd sf)))"

subsection \<open>GoogleSheetsManager\<close>

text \<open>\<open>get_sheet_data\<close>: \<open>None\<close> when the sheet id is empty or the request raises (the three
  branches for \<open>HttpError\<close> differ in the message logged), the rows otherwise.\<close>

definition get_sheet_data :: "environ \<Rightarrow> services \<Rightarrow> row list option" where
  "get_sheet_data env sv =
     (if get_sheet_id env = [] then None
      else case api_result sv of
             ApiValues values \<Rightarrow> Some values
           | ApiHttpError status \<Rightarrow>
               (if status = 403 then None else if status = 404 then None else None)
           | ApiException \<Rightarrow> None)"

subsection \<open>DatabaseManager\<close>

text \<open>The constructor: \<open>connection\<close> is set when PostgreSQL is switched on and
  \<open>psycopg2.connect\<close> returns; \<open>create_table\<close> then runs its statement.\<close>

definition connect :: "environ \<Rightarrow> services \<Rightarrow> bool \<times> event list" where
  "connect env sv =
     (if use_postgresql env \<and> pg_connect_ok sv then (True, [CreateTable]) else (False, []))"

text \<open>\<open>save_lead\<close>: nothing without a connection; otherwise one INSERT, whose failure is
  caught and logged.\<close>

definition save_lead :: "bool \<Rightarrow> bool \<Rightarrow> submission \<Rightarrow> event list" where
  "save_lead connection ok submission =
     (if \<not> connection then [] else [LeadInsert submission ok])"

subsection \<open>NotificationManager\<close>

text \<open>\<open>init_telegram\<close>: whether \<open>telegram_bot\<close> is set.\<close>

definition init_telegram :: "environ \<Rightarrow> services \<Rightarrow> bool" where
  "init_telegram env sv =
     (if truthy (get_telegram_token env) \<and> truthy (get_telegram_chat_id env)
      then bot_ctor_ok sv else False)"

text \<open>The \<open>try\<close> block of \<open>send_telegram\<close>: the calls made, and how the block was left. The
  chat id is read from the configuration; \<open>int(chat_id)\<close> is evaluated in \<open>_send\<close>, where its
  \<open>ValueError\<close> is not caught, so it leaves the block before \<open>send_message\<close> is called.\<close>

definition send_telegram_try ::
  "environ \<Rightarrow> tg_outcome \<Rightarrow> submission \<Rightarrow> event list \<times> attempt" where
  "send_telegram_try env outcome submission =
     (case get_telegram_chat_id env of
        None \<Rightarrow> ([], Done)
      | Some c \<Rightarrow>
          if c = [] \<or> \<not> isdigit env c then ([], Done)
          else (case py_int env c of
                  None \<Rightarrow> ([], Raised)
                | Some n \<Rightarrow>
                    (case outcome of
                       TgSent \<Rightarrow> ([TelegramSend n submission True], Done)
                     | TgTelegramError \<Rightarrow> ([TelegramSend n submission False], Done)
                     | TgOtherException \<Rightarrow> ([TelegramSend n submission False], Raised))))"

text \<open>\<open>send_telegram\<close>: returns at once without a bot; otherwise runs the block, and
  its handler logs whatever the block raised.\<close>

definition send_telegram ::
  "environ \<Rightarrow> bool \<Rightarrow> tg_outcome \<Rightarrow> submission \<Rightarrow> event list" where
  "send_telegram env telegram_bot outcome submission =
     (if \<not> telegram_bot then [] else fst (send_telegram_try env outcome submission))"

text \<open>\<open>send_email\<close>: nothing without a recipient; otherwise one SMTP session, whose
  failure is caught and logged.\<close>

definition send_email :: "string \<Rightarrow> bool \<Rightarrow> submission \<Rightarrow> event list" where
  "send_email to_email ok submission =
     (if to_email = [] then [] else [EmailSend to_email submission ok])"

subsection \<open>process_submissions\<close>

text \<open>The conditional expression \<open>row[j] if j < len(row) else ''\<close>.\<close>

definition cell :: "row \<Rightarrow> nat \<Rightarrow> string" where
  "cell r j = (if j < length r then r ! j else [])"

text \<open>The inner loop \<open>for j, header in enumerate(headers): submission[header] = ...\<close>, from
  index \<open>j\<close> on.\<close>

fun build_from :: "nat \<Rightarrow> string list \<Rightarrow> row \<Rightarrow> submission \<Rightarrow> submission" where
  "build_from j [] r submission = submission"
| "build_from j (header # headers) r submission =
     build_from (Suc j) headers r (AList.update header (cell r j) submission)"

definition build_submission :: "string list \<Rightarrow> row \<Rightarrow> submission" where
  "build_submission headers r = build_from 0 headers r []"

text \<open>The body of the outer loop for the \<open>i\<close>-th new row: the submission built and the calls
  made. None of the three calls raises, so the handler of the loop body is never
  entered.\<close>

definition process_row ::
  "environ \<Rightarrow> services \<Rightarrow> bool \<Rightarrow> bool \<Rightarrow> string list \<Rightarrow> nat \<Rightarrow> row \<Rightarrow> submission \<times> event list" where
  "process_row env sv connection telegram_bot headers i r =
     (let submission = build_submission headers r in
      (submission,
       save_lead connection (insert_ok sv i) submission
       @ send_telegram env telegram_bot (telegram_result sv i) submission
       @ send_email (get_email_to env) (email_ok sv i) submission))"

text \<open>The outer loop \<open>for i, row in enumerate(new_rows, 1)\<close>, from counter \<open>i\<close> on.\<close>

fun process_rows ::
  "environ \<Rightarrow> services \<Rightarrow> bool \<Rightarrow> bool \<Rightarrow> string list \<Rightarrow> nat \<Rightarrow> row list
     \<Rightarrow> submission list \<times> event list" where
  "process_rows env sv connection telegram_bot headers i [] = ([], [])"
| "process_rows env sv connection telegram_bot headers i (r # rs) =
     (let (submission, evs) = process_row env sv connection telegram_bot headers i r;
          (submissions, evs') = process_rows env sv connection telegram_bot headers (Suc i) rs
      in (submission # submissions, evs @ evs'))"

text \<open>What one cycle leaves behind: the file, the dict of the cycle's \<open>StateManager\<close>, the
  submissions built and the calls made.\<close>

record cycle_result =
  file_after :: state_file
  memory_after :: state
  built :: "submission list"
  events :: "event list"

text \<open>One call of \<open>process_submissions\<close> on the file \<open>f\<close>. The four managers are constructed
  anew; an exception of \<open>GoogleSheetsManager()\<close> ends the cycle in the outer handler.\<close>

definition process_submissions :: "environ \<Rightarrow> services \<Rightarrow> state_file \<Rightarrow> cycle_result" where
  "process_submissions env sv f =
     (let st = load f in
      if \<not> credentials_ok sv
      then \<lparr>file_after = f, memory_after = st, built = [], events = []\<rparr>
      else
        let (connection, db_events) = connect env sv;
            telegram_bot = init_telegram env sv
        in case get_sheet_data env sv of
             None \<Rightarrow> \<lparr>file_after = f, memory_after = st, built = [], events = db_events\<rparr>
           | Some [] \<Rightarrow> \<lparr>file_after = f, memory_after = st, built = [], events = db_events\<rparr>
           | Some (headers # rest) \<Rightarrow>
               let data = headers # rest;
                   sheet_id = get_sheet_id env;
                   sheet_name = get_sheet_name env;
                   last_row = get_last_row st sheet_id sheet_name
               in if int (length data) \<le> last_row
                  then \<lparr>file_after = f, memory_after = st, built = [], events = db_events\<rparr>
                  else
                    let new_rows = slice_from data last_row;
                        (submissions, row_events) =
                          process_rows env sv connection telegram_bot headers 1 new_rows;
                        (st', f') =
                          set_last_row (state_write sv) (st, f) sheet_id sheet_name
                            (int (length data))
                    in \<lparr>file_after = f', memory_after = st', built = submissions,
                         events = db_events @ row_events
                           @ [StateWrite (make_key sheet_id sheet_name) (int (length data))
                                (state_write sv)]\<rparr>)"

text \<open>The process: \<open>main\<close> calls \<open>process_submissions\<close> once and then on every tick of the
  timer. Nothing but the file (and the services) is carried from one cycle to the next.\<close>

fun run_cycles :: "environ \<Rightarrow> services list \<Rightarrow> state_file \<Rightarrow> state_file" where
  "run_cycles env [] f = f"
| "run_cycles env (sv # svs) f = run_cycles env svs (file_after (process_submissions env sv f))"

text \<open>The watermark a freshly constructed \<open>StateManager\<close> reports for a key.\<close>

definition stored_watermark :: "state_file \<Rightarrow> string \<Rightarrow> string \<Rightarrow> int" where
  "stored_watermark f sid sname = get_last_row (load f) sid sname"

text \<open>Classes of events.\<close>

fun is_lead_append :: "event \<Rightarrow> bool" where
  "is_lead_append (LeadInsert s ok) = True"
| "is_lead_append ev = False"

fun is_dispatch :: "event \<Rightarrow> bool" where
  "is_dispatch (TelegramSend c s ok) = True"
| "is_dispatch (EmailSend a s ok) = True"
| "is_dispatch ev = False"

fun is_state_write :: "event \<Rightarrow> bool" where
  "is_state_write (StateWrite k n outcome) = True"
| "is_state_write ev = False"

text \<open>What a cycle that returns before its loop leaves behind: file and dict as loaded,
  nothing built, and no call but the one of the \<open>DatabaseManager\<close> constructor.\<close>

definition quiet :: "environ \<Rightarrow> services \<Rightarrow> state_file \<Rightarrow> cycle_result" where
  "quiet env sv f =
     \<lparr>file_after = f, memory_after = load f, built = [],
      events = (if credentials_ok sv then snd (connect env sv) else [])\<rparr>"

subsection \<open>Concrete inputs\<close>

text \<open>A configuration with every channel switched on, the three rows of a small sheet,
  services that fail the first insert only, and a state file holding one watermark. Of
  the Unicode database the configuration has what the examples use: the Arabic-Indic
  digits U+0660 to U+0669, which are decimal digits, and the superscript two U+00B2, a
  digit without a decimal value; the limit on digits is the default 4300.\<close>

definition example_env :: environ where
  "example_env =
     \<lparr>GOOGLE_SHEET_ID = Some ''sheet1'', GOOGLE_SHEET_NAME = None, USE_POSTGRESQL = None,
      TELEGRAM_BOT_TOKEN = Some ''token'', TELEGRAM_CHAT_ID = Some (codepoints ''12345''),
      EMAIL_TO = Some ''sales@example.com'',
      unicode_digit = (\<lambda>c. (1632 \<le> c \<and> c \<le> 1641) \<or> c = 178),
      unicode_decimal = (\<lambda>c. if 1632 \<le> c \<and> c \<le> 1641 then Some (c - 1632) else None),
      int_max_str_digits = 4300\<rparr>"

text \<open>The same configuration with another chat id.\<close>

definition example_env_chat :: "ustring \<Rightarrow> environ" where
  "example_env_chat c = example_env\<lparr>TELEGRAM_CHAT_ID := Some c\<rparr>"

definition example_rows :: "row list" where
  "example_rows =
     [[''Time'', ''Name'', ''Email''],
      [''t1'', ''Alice'', ''a@x.com''],
      [''t2'', ''Bob'', ''b@x.com'']]"

definition example_services :: "api_outcome \<Rightarrow> save_outcome \<Rightarrow> services" where
  "example_services api outcome =
     \<lparr>credentials_ok = True, api_result = api, pg_connect_ok = True, bot_ctor_ok = True,
      insert_ok = (\<lambda>i. i \<noteq> 1), telegram_result = (\<lambda>i. TgSent), email_ok = (\<lambda>i. True),
      state_write = outcome\<rparr>"

definition example_file :: "int \<Rightarrow> state_file" where
  "example_file n = Content [''sheet1:Form Responses 1'' \<mapsto> n]"

section \<open>Properties\<close>

subsection \<open>Building a submission\<close>

lemma build_from_absent:
  "k \<notin> set hs \<Longrightarrow> map_of (build_from j hs r sub) k = map_of sub k"
  by (induction hs arbitrary: j sub) (auto simp: update_conv')

lemma build_from_last:
  "i < length hs \<Longrightarrow> hs ! i \<notin> set (drop (Suc i) hs)
     \<Longrightarrow> map_of (build_from j hs r sub) (hs ! i) = Some (cell r (j + i))"
proof (induction hs arbitrary: i j sub)
  case Nil
  then show ?case by simp
next
  case (Cons h hs)
  show ?case
  proof (cases i)
    case 0
    with Cons.prems show ?thesis
      by (simp add: build_from_absent update_conv')
  next
    case (Suc i')
    with Cons.prems Cons.IH [of i' "Suc j"] show ?thesis
      by simp
  qed
qed

lemma build_from_keys:
  "fst ` set (build_from j hs r sub) = fst ` set sub \<union> set hs"
  by (induction hs arbitrary: j sub) (auto simp: dom_update)

lemma build_from_take:
  "j + length hs \<le> n \<Longrightarrow> build_from j hs (take n r) sub = build_from j hs r sub"
  by (induction hs arbitrary: j sub) (auto simp: cell_def)

subsection \<open>The shape of a cycle\<close>

lemma process_rows_built:
  "fst (process_rows env sv c t hs i rs) = map (build_submission hs) rs"
  by (induction rs arbitrary: i) (simp_all add: process_row_def Let_def split_beta)

lemma cycle_no_credentials:
  "\<not> credentials_ok sv \<Longrightarrow> process_submissions env sv f = quiet env sv f"
  by (simp add: process_submissions_def quiet_def)

lemma cycle_fetch_none:
  "get_sheet_data env sv = None \<Longrightarrow> process_submissions env sv f = quiet env sv f"
  by (simp add: process_submissions_def quiet_def split: prod.splits)

lemma cycle_fetch_empty:
  "get_sheet_data env sv = Some [] \<Longrightarrow> process_submissions env sv f = quiet env sv f"
  by (simp add: process_submissions_def quiet_def split: prod.splits)

lemma cycle_no_new_rows:
  "get_sheet_data env sv = Some R
    \<Longrightarrow> int (length R) \<le> get_last_row (load f) (get_sheet_id env) (get_sheet_name env)
    \<Longrightarrow> process_submissions env sv f = quiet env sv f"
  by (cases R) (simp_all add: process_submissions_def quiet_def split: prod.splits)

lemma cycle_new_rows:
  assumes "credentials_ok sv" and "get_sheet_data env sv = Some R" and "R \<noteq> []"
    and "get_last_row (load f) (get_sheet_id env) (get_sheet_name env) < int (length R)"
  shows "built (process_submissions env sv f) =
           map (build_submission (hd R))
             (slice_from R (get_last_row (load f) (get_sheet_id env) (get_sheet_name env)))"
    and "memory_after (process_submissions env sv f) =
           (load f)(make_key (get_sheet_id env) (get_sheet_name env) \<mapsto> int (length R))"
    and "file_after (process_submissions env sv f) =
           save (state_write sv)
             ((load f)(make_key (get_sheet_id env) (get_sheet_name env) \<mapsto> int (length R))) f"
proof -
  obtain headers rest where R: "R = headers # rest"
    using assms(3) by (cases R) auto
  show "built (process_submissions env sv f) =
           map (build_submission (hd R))
             (slice_from R (get_last_row (load f) (get_sheet_id env) (get_sheet_name env)))"
    using assms(1,2,4) unfolding R
    by (simp add: process_submissions_def Let_def split_beta process_rows_built)
  show "memory_after (process_submissions env sv f) =
           (load f)(make_key (get_sheet_id env) (get_sheet_name env) \<mapsto> int (length R))"
    using assms(1,2,4) unfolding R
    by (simp add: process_submissions_def Let_def split_beta set_last_row_def)
  show "file_after (process_submissions env sv f) =
           save (state_write sv)
             ((load f)(make_key (get_sheet_id env) (get_sheet_name env) \<mapsto> int (length R))) f"
    using assms(1,2,4) unfolding R
    by (simp add: process_submissions_def Let_def split_beta set_last_row_def)
qed

lemma quiet_events:
  "filter is_lead_append (events (quiet env sv f)) = []"
  "filter is_dispatch (events (quiet env sv f)) = []"
  "filter is_state_write (events (quiet env sv f)) = []"
  by (simp_all add: quiet_def connect_def)

lemma quiet_fields:
  "file_after (quiet env sv f) = f"
  "memory_after (quiet env sv f) = load f"
  "built (quiet env sv f) = []"
  by (simp_all add: quiet_def)

subsection \<open>Unfolding the model on concrete inputs\<close>

lemmas example_defs =
  example_env_def example_env_chat_def example_rows_def example_services_def example_file_def

lemmas model_defs =
  process_submissions_def load_def save_def connect_def use_postgresql_def getenv_def
  lower_def lower_char_def init_telegram_def truthy_def get_telegram_token_def
  get_telegram_chat_id_def get_sheet_data_def get_sheet_id_def get_sheet_name_def
  get_last_row_def make_key_def slice_from_def process_row_def build_submission_def cell_def
  save_lead_def send_telegram_def send_telegram_try_def isdigit_def char_isdigit_def
  codepoints_def digit_value_def py_int_def send_email_def get_email_to_def set_last_row_def stored_watermark_def Let_def

subsection \<open>The two ways a cycle ends, and what follows from them\<close>

lemma cycle_cases:
  "process_submissions env sv f = quiet env sv f
   \<or> (credentials_ok sv \<and> (\<exists>R. get_sheet_data env sv = Some R \<and> R \<noteq> []
        \<and> get_last_row (load f) (get_sheet_id env) (get_sheet_name env) < int (length R)))"
proof (cases "credentials_ok sv")
  case False
  then show ?thesis by (simp add: cycle_no_credentials)
next
  case True
  show ?thesis
  proof (cases "get_sheet_data env sv")
    case None
    then show ?thesis by (simp add: cycle_fetch_none)
  next
    case (Some R)
    show ?thesis
    proof (cases "R = [] \<or> int (length R) \<le> get_last_row (load f) (get_sheet_id env) (get_sheet_name env)")
      case True
      with Some show ?thesis
        by (auto simp: cycle_fetch_empty cycle_no_new_rows)
    next
      case False
      with Some \<open>credentials_ok sv\<close> show ?thesis by auto
    qed
  qed
qed

lemma slice_from_nonneg: "0 \<le> i \<Longrightarrow> slice_from xs i = drop (nat i) xs"
  by (simp add: slice_from_def)

lemma cycle_memory_mono:
  "get_last_row (load f) sid sname
     \<le> get_last_row (memory_after (process_submissions env sv f)) sid sname"
proof -
  consider (q) "process_submissions env sv f = quiet env sv f"
    | (n) R where "credentials_ok sv" "get_sheet_data env sv = Some R" "R \<noteq> []"
        "get_last_row (load f) (get_sheet_id env) (get_sheet_name env) < int (length R)"
    using cycle_cases [of env sv f] by blast
  then show ?thesis
  proof cases
    case q
    then show ?thesis by (simp add: quiet_fields)
  next
    case n
    show ?thesis
      using cycle_new_rows(2) [OF n] n(4)
      by (auto simp: get_last_row_def)
  qed
qed

lemma cycle_file_mono:
  assumes "state_write sv \<noteq> DumpFails"
  shows "stored_watermark f sid sname
     \<le> stored_watermark (file_after (process_submissions env sv f)) sid sname"
proof -
  consider (q) "process_submissions env sv f = quiet env sv f"
    | (n) R where "credentials_ok sv" "get_sheet_data env sv = Some R" "R \<noteq> []"
        "get_last_row (load f) (get_sheet_id env) (get_sheet_name env) < int (length R)"
    using cycle_cases [of env sv f] by blast
  then show ?thesis
  proof cases
    case q
    then show ?thesis by (simp add: quiet_fields)
  next
    case n
    show ?thesis
    proof (cases "state_write sv")
      case SaveOk
      then show ?thesis
        using cycle_new_rows(3) [OF n] n(4)
        by (auto simp: stored_watermark_def save_def load_def get_last_row_def)
    next
      case OpenFails
      then show ?thesis
        using cycle_new_rows(3) [OF n]
        by (simp add: save_def)
    next
      case DumpFails
      with assms show ?thesis by simp
    qed
  qed
qed

lemma run_cycles_mono:
  "\<forall>sv \<in> set svs. state_write sv \<noteq> DumpFails
    \<Longrightarrow> stored_watermark f sid sname \<le> stored_watermark (run_cycles env svs f) sid sname"
proof (induction svs arbitrary: f)
  case Nil
  then show ?case by simp
next
  case (Cons sv svs)
  have "stored_watermark f sid sname
      \<le> stored_watermark (file_after (process_submissions env sv f)) sid sname"
    using Cons.prems by (simp add: cycle_file_mono)
  also have "\<dots> \<le> stored_watermark (run_cycles env svs (file_after (process_submissions env sv f)))
      sid sname"
    using Cons.prems by (intro Cons.IH) simp
  finally show ?case by simp
qed

lemma built_depends_on_fetch:
  assumes "credentials_ok sv1 = credentials_ok sv2"
    and "get_sheet_data env sv1 = get_sheet_data env sv2"
  shows "built (process_submissions env sv1 f) = built (process_submissions env sv2 f)"
proof -
  consider (q) "process_submissions env sv1 f = quiet env sv1 f"
    | (n) R where "credentials_ok sv1" "get_sheet_data env sv1 = Some R" "R \<noteq> []"
        "get_last_row (load f) (get_sheet_id env) (get_sheet_name env) < int (length R)"
    using cycle_cases [of env sv1 f] by blast
  then show ?thesis
  proof cases
    case q
    consider (q2) "process_submissions env sv2 f = quiet env sv2 f"
      | (n2) R where "credentials_ok sv2" "get_sheet_data env sv2 = Some R" "R \<noteq> []"
          "get_last_row (load f) (get_sheet_id env) (get_sheet_name env) < int (length R)"
      using cycle_cases [of env sv2 f] by blast
    then show ?thesis
    proof cases
      case q2
      with q show ?thesis by (simp add: quiet_fields)
    next
      case n2
      then have "credentials_ok sv1" "get_sheet_data env sv1 = Some R"
        using assms by simp_all
      from cycle_new_rows(1) [OF this n2(3,4)] cycle_new_rows(1) [OF n2]
      show ?thesis by simp
    qed
  next
    case n
    then have "credentials_ok sv2" "get_sheet_data env sv2 = Some R"
      using assms by simp_all
    from cycle_new_rows(1) [OF this n(3,4)] cycle_new_rows(1) [OF n]
    show ?thesis by simp
  qed
qed

lemma dump_fails_next_cycle:
  assumes "credentials_ok sv2" and "get_sheet_data env sv2 = Some R" and "R \<noteq> []"
  shows "built (process_submissions env sv2 Unreadable) = map (build_submission (hd R)) (drop 1 R)"
proof (cases "int (length R) \<le> 1")
  case True
  then have "process_submissions env sv2 Unreadable = quiet env sv2 Unreadable"
    using assms(2) by (simp add: cycle_no_new_rows load_def get_last_row_def)
  moreover have "drop 1 R = []"
    using True by simp
  ultimately show ?thesis
    by (simp add: quiet_fields)
next
  case False
  then have lt: "get_last_row (load Unreadable) (get_sheet_id env) (get_sheet_name env)
      < int (length R)"
    by (simp add: load_def get_last_row_def)
  show ?thesis
    using cycle_new_rows(1) [OF assms(1,2,3) lt]
    by (simp add: load_def get_last_row_def slice_from_def)
qed

lemma build_submission_last:
  "j < length H \<Longrightarrow> H ! j \<notin> set (drop (Suc j) H)
     \<Longrightarrow> map_of (build_submission H r) (H ! j) = Some (cell r j)"
  using build_from_last [of j H 0 r "[]"] by (simp add: build_submission_def)

section \<open>The claims\<close>

text \<open>
  C1 (as amended). For every fetched row set \<open>R\<close> and stored watermark \<open>W\<close> with
  \<open>0 \<le> W < len(R)\<close>, one cycle builds exactly \<open>len(R) - W\<close> submissions, one per row of
  \<open>R[W:]\<close> in order, each by zipping the header \<open>R[0]\<close> against that row, whatever the
  outcomes of the per-row inserts and sends are (\<open>sv\<close> is arbitrary). After the cycle the
  watermark of the configured key is \<open>len(R)\<close> in the dict of the \<open>StateManager\<close>, and in
  \<open>state.json\<close> when the write succeeds.
\<close>

theorem new_rows_processed:
  assumes "credentials_ok sv" and "get_sheet_data env sv = Some R"
    and "W = stored_watermark f (get_sheet_id env) (get_sheet_name env)"
    and "0 \<le> W" and "W < int (length R)"
  shows "built (process_submissions env sv f) = map (build_submission (hd R)) (drop (nat W) R)
    \<and> length (built (process_submissions env sv f)) = length R - nat W
    \<and> get_last_row (memory_after (process_submissions env sv f))
          (get_sheet_id env) (get_sheet_name env) = int (length R)
    \<and> (state_write sv = SaveOk \<longrightarrow>
          stored_watermark (file_after (process_submissions env sv f))
            (get_sheet_id env) (get_sheet_name env) = int (length R))"
proof -
  have ne: "R \<noteq> []"
    using assms(4,5) by auto
  have lt: "get_last_row (load f) (get_sheet_id env) (get_sheet_name env) < int (length R)"
    using assms(3,5) by (simp add: stored_watermark_def)
  have b: "built (process_submissions env sv f) = map (build_submission (hd R)) (drop (nat W) R)"
    using cycle_new_rows(1) [OF assms(1,2) ne lt] assms(3,4)
    by (simp add: stored_watermark_def slice_from_nonneg)
  have m: "get_last_row (memory_after (process_submissions env sv f))
          (get_sheet_id env) (get_sheet_name env) = int (length R)"
    using cycle_new_rows(2) [OF assms(1,2) ne lt]
    by (simp add: get_last_row_def)
  have s: "state_write sv = SaveOk \<longrightarrow>
          stored_watermark (file_after (process_submissions env sv f))
            (get_sheet_id env) (get_sheet_name env) = int (length R)"
    using cycle_new_rows(3) [OF assms(1,2) ne lt]
    by (simp add: stored_watermark_def save_def load_def get_last_row_def)
  from b m s show ?thesis by simp
qed

text \<open>The end-to-end scenario of the specification: watermark 1, a header and two rows; the
  insert for the first row fails.\<close>

theorem new_rows_processed_witness:
  "credentials_ok (example_services (ApiValues example_rows) SaveOk)
   \<and> get_sheet_data example_env (example_services (ApiValues example_rows) SaveOk) = Some example_rows
   \<and> stored_watermark NoFile (get_sheet_id example_env) (get_sheet_name example_env) = 1
   \<and> (1::int) < int (length example_rows)
   \<and> built (process_submissions example_env (example_services (ApiValues example_rows) SaveOk) NoFile)
       = [[(''Time'', ''t1''), (''Name'', ''Alice''), (''Email'', ''a@x.com'')],
          [(''Time'', ''t2''), (''Name'', ''Bob''), (''Email'', ''b@x.com'')]]
   \<and> length (built (process_submissions example_env (example_services (ApiValues example_rows) SaveOk) NoFile)) = 2
   \<and> get_last_row (memory_after (process_submissions example_env (example_services (ApiValues example_rows) SaveOk) NoFile))
        (get_sheet_id example_env) (get_sheet_name example_env) = 3
   \<and> stored_watermark (file_after (process_submissions example_env (example_services (ApiValues example_rows) SaveOk) NoFile))
        (get_sheet_id example_env) (get_sheet_name example_env) = 3"
proof -
  have c: "credentials_ok (example_services (ApiValues example_rows) SaveOk)"
    by (simp add: example_defs)
  have d: "get_sheet_data example_env (example_services (ApiValues example_rows) SaveOk) = Some example_rows"
    by (simp add: example_defs get_sheet_data_def get_sheet_id_def getenv_def)
  have w: "(1::int) = stored_watermark NoFile (get_sheet_id example_env) (get_sheet_name example_env)"
    by (simp add: stored_watermark_def load_def get_last_row_def)
  have l: "(1::int) < int (length example_rows)"
    by (simp add: example_defs)
  have s: "state_write (example_services (ApiValues example_rows) SaveOk) = SaveOk"
    by (simp add: example_defs)
  have m: "map (build_submission (hd example_rows)) (drop (nat 1) example_rows) =
       [[(''Time'', ''t1''), (''Name'', ''Alice''), (''Email'', ''a@x.com'')],
          [(''Time'', ''t2''), (''Name'', ''Bob''), (''Email'', ''b@x.com'')]]"
    by (simp add: example_defs build_submission_def cell_def)
  have n: "length example_rows - nat 1 = 2"
    by (simp add: example_defs)
  have t: "int (length example_rows) = 3"
    by (simp add: example_defs)
  show ?thesis
    using new_rows_processed [OF c d w _ l] c d w [symmetric] l s m n t by simp
qed

text \<open>The claim as stated, for every \<open>W < len(R)\<close>, fails for a negative stored watermark:
  with \<open>W = -1\<close> and three rows the slice \<open>data[-1:]\<close> is the last row alone, so one
  submission is built where \<open>len(R) - W\<close> is 4. And when \<open>state.json\<close> cannot be opened
  for writing, the watermark stored there after the cycle is still \<open>-1\<close>, not 3.\<close>

theorem new_rows_negative_watermark:
  "get_sheet_data example_env (example_services (ApiValues example_rows) OpenFails)
     = Some example_rows
   \<and> stored_watermark (example_file (- 1)) (get_sheet_id example_env) (get_sheet_name example_env)
     = - 1
   \<and> int (length example_rows) - (- 1) = 4
   \<and> built (process_submissions example_env (example_services (ApiValues example_rows) OpenFails)
        (example_file (- 1)))
       = [[(''Time'', ''t2''), (''Name'', ''Bob''), (''Email'', ''b@x.com'')]]
   \<and> int (length example_rows) = 3
   \<and> stored_watermark (file_after (process_submissions example_env
        (example_services (ApiValues example_rows) OpenFails) (example_file (- 1))))
        (get_sheet_id example_env) (get_sheet_name example_env) = - 1"
  by (simp add: example_defs model_defs)

text \<open>
  C2. For every fetched row set \<open>R\<close> and stored watermark \<open>W\<close> with \<open>len(R) \<le> W\<close>, one
  cycle makes no lead insert, no Telegram or e-mail dispatch and no state write, builds
  nothing, and leaves \<open>state.json\<close>, and with it the stored watermark of every key, as it
  was.
\<close>

theorem no_new_rows_no_effects:
  assumes "get_sheet_data env sv = Some R"
    and "int (length R) \<le> stored_watermark f (get_sheet_id env) (get_sheet_name env)"
  shows "filter is_lead_append (events (process_submissions env sv f)) = []
    \<and> filter is_dispatch (events (process_submissions env sv f)) = []
    \<and> filter is_state_write (events (process_submissions env sv f)) = []
    \<and> built (process_submissions env sv f) = []
    \<and> file_after (process_submissions env sv f) = f
    \<and> memory_after (process_submissions env sv f) = load f
    \<and> (\<forall>sid sname. stored_watermark (file_after (process_submissions env sv f)) sid sname
          = stored_watermark f sid sname)"
proof -
  have "process_submissions env sv f = quiet env sv f"
    using assms by (simp add: cycle_no_new_rows stored_watermark_def)
  then show ?thesis
    by (simp add: quiet_events quiet_fields)
qed

theorem no_new_rows_no_effects_witness:
  "get_sheet_data example_env (example_services (ApiValues example_rows) SaveOk) = Some example_rows
   \<and> int (length example_rows)
        \<le> stored_watermark (example_file 3) (get_sheet_id example_env) (get_sheet_name example_env)
   \<and> events (process_submissions example_env (example_services (ApiValues example_rows) SaveOk)
        (example_file 3)) = [CreateTable]
   \<and> filter is_lead_append (events (process_submissions example_env
        (example_services (ApiValues example_rows) SaveOk) (example_file 3))) = []
   \<and> filter is_dispatch (events (process_submissions example_env
        (example_services (ApiValues example_rows) SaveOk) (example_file 3))) = []
   \<and> filter is_state_write (events (process_submissions example_env
        (example_services (ApiValues example_rows) SaveOk) (example_file 3))) = []
   \<and> file_after (process_submissions example_env
        (example_services (ApiValues example_rows) SaveOk) (example_file 3)) = example_file 3"
proof -
  have d: "get_sheet_data example_env (example_services (ApiValues example_rows) SaveOk)
      = Some example_rows"
    by (simp add: example_defs get_sheet_data_def get_sheet_id_def getenv_def)
  have w: "int (length example_rows)
      \<le> stored_watermark (example_file 3) (get_sheet_id example_env) (get_sheet_name example_env)"
    by (simp add: example_defs model_defs)
  have e: "events (process_submissions example_env (example_services (ApiValues example_rows) SaveOk)
        (example_file 3)) = [CreateTable]"
    by (simp add: example_defs model_defs)
  show ?thesis
    using no_new_rows_no_effects [OF d w] d w e by simp
qed

text \<open>
  C3 (as amended). For every header list \<open>H\<close> and row \<open>r\<close> with \<open>len(r) < len(H)\<close>, the
  submission maps the column name \<open>H[j]\<close> to \<open>r[j]\<close> when \<open>j < len(r)\<close> and to the empty
  string when \<open>j \<ge> len(r)\<close>, for every \<open>j\<close> that is the last position of its name in \<open>H\<close>
  (every \<open>j\<close>, when the names are distinct): header \<open>[A,B,C]\<close> and row \<open>[x,y]\<close> give
  \<open>{A: x, B: y, C: ""}\<close>.
\<close>

theorem short_row_padded:
  assumes "length r < length H" and "j < length H" and "H ! j \<notin> set (drop (Suc j) H)"
  shows "map_of (build_submission H r) (H ! j) = Some (if j < length r then r ! j else [])"
  using build_submission_last [OF assms(2,3), of r] by (simp add: cell_def)

theorem short_row_padded_witness:
  "length [''x'', ''y''] < length [''A'', ''B'', ''C'']
   \<and> (2::nat) < length [''A'', ''B'', ''C'']
   \<and> [''A'', ''B'', ''C''] ! 2 \<notin> set (drop (Suc 2) [''A'', ''B'', ''C''])
   \<and> map_of (build_submission [''A'', ''B'', ''C''] [''x'', ''y'']) ''C'' = Some []
   \<and> build_submission [''A'', ''B'', ''C''] [''x'', ''y'']
       = [(''A'', ''x''), (''B'', ''y''), (''C'', [])]"
proof -
  have a: "length [''x'', ''y''] < length [''A'', ''B'', ''C'']" by simp
  have b: "(2::nat) < length [''A'', ''B'', ''C'']" by simp
  have c: "[''A'', ''B'', ''C''] ! 2 \<notin> set (drop (Suc 2) [''A'', ''B'', ''C''])" by simp
  have d: "build_submission [''A'', ''B'', ''C''] [''x'', ''y'']
       = [(''A'', ''x''), (''B'', ''y''), (''C'', [])]"
    by (simp add: build_submission_def cell_def)
  show ?thesis
    using short_row_padded [OF a b c] a b c d by simp
qed

text \<open>The claim as stated, for every header list, fails when a name occurs twice: with
  header \<open>[A,A]\<close> and row \<open>[x]\<close> the second column, which has no cell, overwrites the first,
  and \<open>H[0]\<close> is mapped to the empty string, not to \<open>r[0]\<close>.\<close>

theorem short_row_duplicate_header:
  "length [''x''] < length [''A'', ''A'']
   \<and> (0::nat) < length [''x'']
   \<and> [''x''] ! 0 = ''x''
   \<and> map_of (build_submission [''A'', ''A''] [''x'']) ([''A'', ''A''] ! 0) = Some []"
  by (simp add: build_submission_def cell_def)

text \<open>
  C4. Idempotence on an unchanged source: when a cycle that fetched \<open>R\<close> has completed with
  its state write (if any) succeeding, a second cycle that fetches the same \<open>R\<close> makes no
  lead insert and no dispatch, and builds no submission, whatever its other outcomes are.
\<close>

theorem second_cycle_idempotent:
  assumes "credentials_ok sv1" and "get_sheet_data env sv1 = Some R"
    and "state_write sv1 = SaveOk"
    and "get_sheet_data env sv2 = Some R"
  shows "filter is_lead_append
           (events (process_submissions env sv2 (file_after (process_submissions env sv1 f)))) = []
    \<and> filter is_dispatch
           (events (process_submissions env sv2 (file_after (process_submissions env sv1 f)))) = []
    \<and> built (process_submissions env sv2 (file_after (process_submissions env sv1 f))) = []"
proof -
  let ?f1 = "file_after (process_submissions env sv1 f)"
  have "R = [] \<or> int (length R) \<le> get_last_row (load ?f1) (get_sheet_id env) (get_sheet_name env)"
  proof (cases "R = [] \<or> int (length R) \<le> get_last_row (load f) (get_sheet_id env) (get_sheet_name env)")
    case True
    then have "process_submissions env sv1 f = quiet env sv1 f"
      using assms(2) by (auto simp: cycle_fetch_empty cycle_no_new_rows)
    with True show ?thesis
      by (simp add: quiet_fields)
  next
    case False
    then have ne: "R \<noteq> []"
      and lt: "get_last_row (load f) (get_sheet_id env) (get_sheet_name env) < int (length R)"
      by auto
    show ?thesis
      using cycle_new_rows(3) [OF assms(1,2) ne lt] assms(3)
      by (simp add: save_def load_def get_last_row_def)
  qed
  then have "process_submissions env sv2 ?f1 = quiet env sv2 ?f1"
    using assms(4) by (auto simp: cycle_fetch_empty cycle_no_new_rows)
  then show ?thesis
    by (simp add: quiet_events quiet_fields)
qed

theorem second_cycle_idempotent_witness:
  "credentials_ok (example_services (ApiValues example_rows) SaveOk)
   \<and> get_sheet_data example_env (example_services (ApiValues example_rows) SaveOk) = Some example_rows
   \<and> state_write (example_services (ApiValues example_rows) SaveOk) = SaveOk
   \<and> stored_watermark (file_after (process_submissions example_env
        (example_services (ApiValues example_rows) SaveOk) NoFile))
        (get_sheet_id example_env) (get_sheet_name example_env) = 3
   \<and> filter is_lead_append (events (process_submissions example_env
        (example_services (ApiValues example_rows) SaveOk)
        (file_after (process_submissions example_env
           (example_services (ApiValues example_rows) SaveOk) NoFile)))) = []
   \<and> filter is_dispatch (events (process_submissions example_env
        (example_services (ApiValues example_rows) SaveOk)
        (file_after (process_submissions example_env
           (example_services (ApiValues example_rows) SaveOk) NoFile)))) = []"
proof -
  have c: "credentials_ok (example_services (ApiValues example_rows) SaveOk)"
    by (simp add: example_defs)
  have d: "get_sheet_data example_env (example_services (ApiValues example_rows) SaveOk)
      = Some example_rows"
    by (simp add: example_defs get_sheet_data_def get_sheet_id_def getenv_def)
  have s: "state_write (example_services (ApiValues example_rows) SaveOk) = SaveOk"
    by (simp add: example_defs)
  have w: "stored_watermark (file_after (process_submissions example_env
        (example_services (ApiValues example_rows) SaveOk) NoFile))
        (get_sheet_id example_env) (get_sheet_name example_env) = 3"
    by (simp add: example_defs model_defs)
  show ?thesis
    using second_cycle_idempotent [OF c d s d, of NoFile] c d s w by simp
qed

text \<open>
  C5. Key isolation: for two distinct composite keys \<open>"<sheet_id>:<sheet_name>"\<close>,
  \<open>set_last_row\<close> for the first leaves what \<open>get_last_row\<close> returns for the second unchanged,
  in the dict of the \<open>StateManager\<close> whatever becomes of the write, and in the file a
  successful write leaves.
\<close>

theorem key_isolation:
  assumes "make_key sid1 sname1 \<noteq> make_key sid2 sname2"
  shows "get_last_row (fst (set_last_row outcome (st, f) sid1 sname1 n)) sid2 sname2
           = get_last_row st sid2 sname2
    \<and> stored_watermark (snd (set_last_row SaveOk (load f, f) sid1 sname1 n)) sid2 sname2
           = stored_watermark f sid2 sname2"
  using assms
  by (simp add: set_last_row_def get_last_row_def stored_watermark_def save_def load_def Let_def)

theorem key_isolation_witness:
  "make_key ''sheet1'' ''Form Responses 1'' \<noteq> make_key ''sheet2'' ''Form Responses 1''
   \<and> get_last_row (fst (set_last_row SaveOk
         ([make_key ''sheet2'' ''Form Responses 1'' \<mapsto> 7], NoFile)
         ''sheet1'' ''Form Responses 1'' 3)) ''sheet2'' ''Form Responses 1'' = 7
   \<and> get_last_row (fst (set_last_row SaveOk
         ([make_key ''sheet2'' ''Form Responses 1'' \<mapsto> 7], NoFile)
         ''sheet1'' ''Form Responses 1'' 3)) ''sheet1'' ''Form Responses 1'' = 3"
proof -
  have k: "make_key ''sheet1'' ''Form Responses 1'' \<noteq> make_key ''sheet2'' ''Form Responses 1''"
    by (simp add: make_key_def)
  have a: "get_last_row [make_key ''sheet2'' ''Form Responses 1'' \<mapsto> 7]
      ''sheet2'' ''Form Responses 1'' = 7"
    by (simp add: get_last_row_def)
  have b: "get_last_row (fst (set_last_row SaveOk
         ([make_key ''sheet2'' ''Form Responses 1'' \<mapsto> 7], NoFile)
         ''sheet1'' ''Form Responses 1'' 3)) ''sheet1'' ''Form Responses 1'' = 3"
    by (simp add: set_last_row_def get_last_row_def Let_def)
  show ?thesis
    using key_isolation [OF k, of SaveOk "[make_key ''sheet2'' ''Form Responses 1'' \<mapsto> 7]"
        NoFile 3] k a b
    by simp
qed

text \<open>
  C6 (as amended). \<open>get_last_row\<close> returns 1 for a key that was never set. Within a cycle
  the watermark of every key in the dict of the \<open>StateManager\<close> never decreases (a cycle
  writes \<open>len(R)\<close> only, and only when \<open>len(R)\<close> exceeds the watermark it read). Across any
  sequence of cycles the watermark stored in \<open>state.json\<close> never decreases for any key,
  provided no state write fails after the file was opened for writing.
\<close>

theorem watermark_invariant:
  "(st (make_key sid sname) = None \<longrightarrow> get_last_row st sid sname = 1)
   \<and> get_last_row (load f) sid sname
        \<le> get_last_row (memory_after (process_submissions env sv f)) sid sname
   \<and> ((\<forall>sv \<in> set svs. state_write sv \<noteq> DumpFails) \<longrightarrow>
        stored_watermark f sid sname \<le> stored_watermark (run_cycles env svs f) sid sname)"
  using cycle_memory_mono [of f sid sname env sv] run_cycles_mono [of svs f sid sname env]
  by (simp add: get_last_row_def)

theorem watermark_invariant_witness:
  "Map.empty (make_key ''sheet1'' ''Form Responses 1'') = (None :: int option)
   \<and> get_last_row Map.empty ''sheet1'' ''Form Responses 1'' = 1
   \<and> state_write (example_services (ApiValues example_rows) OpenFails) \<noteq> DumpFails
   \<and> state_write (example_services (ApiValues example_rows) SaveOk) \<noteq> DumpFails
   \<and> stored_watermark (example_file 2) ''sheet1'' ''Form Responses 1'' = 2
   \<and> stored_watermark (run_cycles example_env
        [example_services (ApiValues example_rows) OpenFails,
         example_services (ApiValues example_rows) SaveOk] (example_file 2))
        ''sheet1'' ''Form Responses 1'' = 3
   \<and> stored_watermark (example_file 2) ''sheet1'' ''Form Responses 1''
       \<le> stored_watermark (run_cycles example_env
        [example_services (ApiValues example_rows) OpenFails,
         example_services (ApiValues example_rows) SaveOk] (example_file 2))
        ''sheet1'' ''Form Responses 1''"
proof -
  have a: "state_write (example_services (ApiValues example_rows) OpenFails) \<noteq> DumpFails"
    "state_write (example_services (ApiValues example_rows) SaveOk) \<noteq> DumpFails"
    by (simp_all add: example_defs)
  have b: "stored_watermark (example_file 2) ''sheet1'' ''Form Responses 1'' = 2"
    by (simp add: example_defs model_defs)
  have c: "stored_watermark (run_cycles example_env
        [example_services (ApiValues example_rows) OpenFails,
         example_services (ApiValues example_rows) SaveOk] (example_file 2))
        ''sheet1'' ''Form Responses 1'' = 3"
    by (simp add: example_defs model_defs)
  show ?thesis
    using watermark_invariant [of Map.empty "''sheet1''" "''Form Responses 1''"
        "example_file 2" example_env "example_services (ApiValues example_rows) SaveOk"
        "[example_services (ApiValues example_rows) OpenFails,
          example_services (ApiValues example_rows) SaveOk]"] a b c
    by simp
qed

text \<open>The claim as stated, for any sequence of cycles, fails when a state write breaks
  off after \<open>open(STATE_FILE, 'w')\<close> has truncated the file: the next \<open>StateManager\<close> cannot
  read the file, starts from \<open>{}\<close>, and the watermark that was 2 is 1.\<close>

theorem watermark_decreases_after_broken_write:
  "stored_watermark (example_file 2) ''sheet1'' ''Form Responses 1'' = 2
   \<and> stored_watermark (run_cycles example_env
        [example_services (ApiValues example_rows) DumpFails] (example_file 2))
        ''sheet1'' ''Form Responses 1'' = 1"
  by (simp add: example_defs model_defs)

text \<open>
  C7 (as amended). After \<open>set_last_row(key, n)\<close> whose write fails, \<open>n\<close> is what
  \<open>get_last_row(key)\<close> returns on the same \<open>StateManager\<close> object. Every cycle constructs a
  new \<open>StateManager\<close> from \<open>state.json\<close>, so the later cycles of the running process see what
  the failed write left in the file, not \<open>n\<close>. When the file could not be opened that is
  the previous watermark \<open>W\<close>, and the next cycle that fetches the same rows builds the
  same submissions again. When the write broke the file that is the default 1, and the
  next cycle that fetches the same rows builds a submission for every row after the
  header.
\<close>

theorem failed_write_in_memory_only:
  assumes "outcome \<noteq> SaveOk"
    and "credentials_ok sv1" and "get_sheet_data env sv1 = Some R"
    and "state_write sv1 = outcome"
    and "R \<noteq> []"
    and "W = stored_watermark f0 (get_sheet_id env) (get_sheet_name env)"
    and "W < int (length R)"
    and "credentials_ok sv2" and "get_sheet_data env sv2 = Some R"
  shows "get_last_row (fst (set_last_row outcome (st, f) sid sname n)) sid sname = n
    \<and> stored_watermark (snd (set_last_row outcome (st, f) sid sname n)) sid sname
        = (if outcome = OpenFails then stored_watermark f sid sname else 1)
    \<and> get_last_row (memory_after (process_submissions env sv1 f0))
        (get_sheet_id env) (get_sheet_name env) = int (length R)
    \<and> stored_watermark (file_after (process_submissions env sv1 f0))
        (get_sheet_id env) (get_sheet_name env) = (if outcome = OpenFails then W else 1)
    \<and> built (process_submissions env sv2 (file_after (process_submissions env sv1 f0)))
        = (if outcome = OpenFails then built (process_submissions env sv1 f0)
           else map (build_submission (hd R)) (drop 1 R))"
proof -
  have lt: "get_last_row (load f0) (get_sheet_id env) (get_sheet_name env) < int (length R)"
    using assms(6,7) by (simp add: stored_watermark_def)
  note new = cycle_new_rows [OF assms(2,3,5) lt]
  have a: "get_last_row (fst (set_last_row outcome (st, f) sid sname n)) sid sname = n"
    by (simp add: set_last_row_def get_last_row_def Let_def)
  have b: "stored_watermark (snd (set_last_row outcome (st, f) sid sname n)) sid sname
        = (if outcome = OpenFails then stored_watermark f sid sname else 1)"
    using assms(1)
    by (cases outcome)
       (simp_all add: set_last_row_def get_last_row_def stored_watermark_def save_def load_def
          Let_def)
  have c: "get_last_row (memory_after (process_submissions env sv1 f0))
        (get_sheet_id env) (get_sheet_name env) = int (length R)"
    using new(2) by (simp add: get_last_row_def)
  have fa: "file_after (process_submissions env sv1 f0)
      = (if outcome = OpenFails then f0 else Unreadable)"
    using new(3) assms(1,4) by (cases outcome) (simp_all add: save_def)
  have d: "stored_watermark (file_after (process_submissions env sv1 f0))
        (get_sheet_id env) (get_sheet_name env) = (if outcome = OpenFails then W else 1)"
    using fa assms(6) by (simp add: stored_watermark_def load_def get_last_row_def)
  have e: "built (process_submissions env sv2 (file_after (process_submissions env sv1 f0)))
        = (if outcome = OpenFails then built (process_submissions env sv1 f0)
           else map (build_submission (hd R)) (drop 1 R))"
  proof (cases "outcome = OpenFails")
    case True
    have "built (process_submissions env sv2 f0) = built (process_submissions env sv1 f0)"
      using built_depends_on_fetch [of sv2 sv1 env f0] assms(2,3,8,9) by simp
    with True fa show ?thesis by simp
  next
    case False
    with fa dump_fails_next_cycle [OF assms(8,9,5)] show ?thesis by simp
  qed
  from a b c d e show ?thesis by (intro conjI)
qed

text \<open>A file with watermark 2 and three rows. After a write that cannot open the file the
  dict has 3, the file still 2, and the next cycle builds the submission of the third row
  again; after a write that breaks the file the next cycle reads 1 and builds both.\<close>

theorem failed_write_in_memory_only_witness:
  "credentials_ok (example_services (ApiValues example_rows) OpenFails)
   \<and> get_sheet_data example_env (example_services (ApiValues example_rows) OpenFails)
       = Some example_rows
   \<and> stored_watermark (example_file 2) (get_sheet_id example_env) (get_sheet_name example_env) = 2
   \<and> int (length example_rows) = 3
   \<and> get_last_row (memory_after (process_submissions example_env
        (example_services (ApiValues example_rows) OpenFails) (example_file 2)))
        (get_sheet_id example_env) (get_sheet_name example_env) = 3
   \<and> stored_watermark (file_after (process_submissions example_env
        (example_services (ApiValues example_rows) OpenFails) (example_file 2)))
        (get_sheet_id example_env) (get_sheet_name example_env) = 2
   \<and> built (process_submissions example_env (example_services (ApiValues example_rows) SaveOk)
        (file_after (process_submissions example_env
           (example_services (ApiValues example_rows) OpenFails) (example_file 2))))
       = [[(''Time'', ''t2''), (''Name'', ''Bob''), (''Email'', ''b@x.com'')]]
   \<and> built (process_submissions example_env
        (example_services (ApiValues example_rows) OpenFails) (example_file 2))
       = [[(''Time'', ''t2''), (''Name'', ''Bob''), (''Email'', ''b@x.com'')]]
   \<and> get_last_row (memory_after (process_submissions example_env
        (example_services (ApiValues example_rows) DumpFails) (example_file 2)))
        (get_sheet_id example_env) (get_sheet_name example_env) = 3
   \<and> stored_watermark (file_after (process_submissions example_env
        (example_services (ApiValues example_rows) DumpFails) (example_file 2)))
        (get_sheet_id example_env) (get_sheet_name example_env) = 1
   \<and> built (process_submissions example_env (example_services (ApiValues example_rows) SaveOk)
        (file_after (process_submissions example_env
           (example_services (ApiValues example_rows) DumpFails) (example_file 2))))
       = [[(''Time'', ''t1''), (''Name'', ''Alice''), (''Email'', ''a@x.com'')],
          [(''Time'', ''t2''), (''Name'', ''Bob''), (''Email'', ''b@x.com'')]]
   \<and> get_last_row (fst (set_last_row OpenFails (load (example_file 2), example_file 2)
        ''sheet1'' ''Form Responses 1'' 3)) ''sheet1'' ''Form Responses 1'' = 3
   \<and> stored_watermark (snd (set_last_row OpenFails (load (example_file 2), example_file 2)
        ''sheet1'' ''Form Responses 1'' 3)) ''sheet1'' ''Form Responses 1'' = 2
   \<and> stored_watermark (snd (set_last_row DumpFails (load (example_file 2), example_file 2)
        ''sheet1'' ''Form Responses 1'' 3)) ''sheet1'' ''Form Responses 1'' = 1"
proof -
  let ?o = "example_services (ApiValues example_rows) OpenFails"
  let ?d = "example_services (ApiValues example_rows) DumpFails"
  let ?s = "example_services (ApiValues example_rows) SaveOk"
  have no: "OpenFails \<noteq> SaveOk" and nd: "DumpFails \<noteq> SaveOk" by simp_all
  have co: "credentials_ok ?o" and cd: "credentials_ok ?d" and cs: "credentials_ok ?s"
    by (simp_all add: example_defs)
  have go: "get_sheet_data example_env ?o = Some example_rows"
    and gd: "get_sheet_data example_env ?d = Some example_rows"
    and gs: "get_sheet_data example_env ?s = Some example_rows"
    by (simp_all add: example_defs get_sheet_data_def get_sheet_id_def getenv_def)
  have so: "state_write ?o = OpenFails" and sd: "state_write ?d = DumpFails"
    by (simp_all add: example_defs)
  have ne: "example_rows \<noteq> []" by (simp add: example_defs)
  have w: "(2::int) = stored_watermark (example_file 2) (get_sheet_id example_env)
      (get_sheet_name example_env)"
    by (simp add: example_defs model_defs)
  have l: "(2::int) < int (length example_rows)" by (simp add: example_defs)
  have t: "int (length example_rows) = 3" by (simp add: example_defs)
  have k: "stored_watermark (example_file 2) ''sheet1'' ''Form Responses 1'' = 2"
    by (simp add: example_defs model_defs)
  have bo: "built (process_submissions example_env ?o (example_file 2))
       = [[(''Time'', ''t2''), (''Name'', ''Bob''), (''Email'', ''b@x.com'')]]"
    by (simp add: example_defs model_defs)
  have dr: "map (build_submission (hd example_rows)) (drop 1 example_rows)
       = [[(''Time'', ''t1''), (''Name'', ''Alice''), (''Email'', ''a@x.com'')],
          [(''Time'', ''t2''), (''Name'', ''Bob''), (''Email'', ''b@x.com'')]]"
    by (simp add: example_defs build_submission_def cell_def)
  note O = failed_write_in_memory_only [OF no co go so ne w l cs gs,
      of "load (example_file 2)" "example_file 2" "''sheet1''" "''Form Responses 1''" 3]
  note D = failed_write_in_memory_only [OF nd cd gd sd ne w l cs gs,
      of "load (example_file 2)" "example_file 2" "''sheet1''" "''Form Responses 1''" 3]
  show ?thesis
    using O D co go w [symmetric] t k bo dr by simp
qed

text \<open>The claim as stated fails in the running process: the first cycle sets the watermark
  to 3 in memory and cannot write the file; the next cycle reads 1 from the file, builds
  both submissions again and dispatches four notifications.\<close>

theorem failed_write_seen_by_next_cycle:
  "state_write (example_services (ApiValues example_rows) OpenFails) = OpenFails
   \<and> get_last_row (memory_after (process_submissions example_env
        (example_services (ApiValues example_rows) OpenFails) NoFile))
        ''sheet1'' ''Form Responses 1'' = 3
   \<and> stored_watermark (file_after (process_submissions example_env
        (example_services (ApiValues example_rows) OpenFails) NoFile))
        ''sheet1'' ''Form Responses 1'' = 1
   \<and> built (process_submissions example_env (example_services (ApiValues example_rows) SaveOk)
        (file_after (process_submissions example_env
           (example_services (ApiValues example_rows) OpenFails) NoFile)))
       = [[(''Time'', ''t1''), (''Name'', ''Alice''), (''Email'', ''a@x.com'')],
          [(''Time'', ''t2''), (''Name'', ''Bob''), (''Email'', ''b@x.com'')]]
   \<and> length (filter is_dispatch (events (process_submissions example_env
        (example_services (ApiValues example_rows) SaveOk)
        (file_after (process_submissions example_env
           (example_services (ApiValues example_rows) OpenFails) NoFile))))) = 4"
  by (simp add: example_defs model_defs)

text \<open>
  C8. For every cycle in which the fetch fails (an \<open>HttpError\<close> of any status, 403 and 404
  among them, any other exception, or no sheet id) or returns no rows, the cycle makes no
  lead insert, no dispatch and no state write, and \<open>state.json\<close> is exactly what it was.
\<close>

theorem fetch_failure_no_effects:
  assumes "(\<exists>status. api_result sv = ApiHttpError status) \<or> api_result sv = ApiException
    \<or> api_result sv = ApiValues [] \<or> get_sheet_id env = []"
  shows "filter is_lead_append (events (process_submissions env sv f)) = []
    \<and> filter is_dispatch (events (process_submissions env sv f)) = []
    \<and> filter is_state_write (events (process_submissions env sv f)) = []
    \<and> built (process_submissions env sv f) = []
    \<and> file_after (process_submissions env sv f) = f"
proof -
  have "get_sheet_data env sv = None \<or> get_sheet_data env sv = Some []"
    using assms by (auto simp: get_sheet_data_def)
  then have "process_submissions env sv f = quiet env sv f"
    by (auto simp: cycle_fetch_none cycle_fetch_empty)
  then show ?thesis
    by (simp add: quiet_events quiet_fields)
qed

theorem fetch_failure_no_effects_witness:
  "api_result (example_services (ApiHttpError 403) SaveOk) = ApiHttpError 403
   \<and> get_sheet_data example_env (example_services (ApiHttpError 403) SaveOk) = None
   \<and> events (process_submissions example_env (example_services (ApiHttpError 403) SaveOk)
        (example_file 1)) = [CreateTable]
   \<and> filter is_lead_append (events (process_submissions example_env
        (example_services (ApiHttpError 403) SaveOk) (example_file 1))) = []
   \<and> filter is_dispatch (events (process_submissions example_env
        (example_services (ApiHttpError 403) SaveOk) (example_file 1))) = []
   \<and> filter is_state_write (events (process_submissions example_env
        (example_services (ApiHttpError 403) SaveOk) (example_file 1))) = []
   \<and> file_after (process_submissions example_env
        (example_services (ApiHttpError 403) SaveOk) (example_file 1)) = example_file 1"
proof -
  have a: "api_result (example_services (ApiHttpError 403) SaveOk) = ApiHttpError 403"
    by (simp add: example_defs)
  have d: "get_sheet_data example_env (example_services (ApiHttpError 403) SaveOk) = None"
    by (simp add: example_defs get_sheet_data_def get_sheet_id_def getenv_def)
  have e: "events (process_submissions example_env (example_services (ApiHttpError 403) SaveOk)
        (example_file 1)) = [CreateTable]"
    by (simp add: example_defs model_defs)
  show ?thesis
    using fetch_failure_no_effects [of "example_services (ApiHttpError 403) SaveOk" example_env
        "example_file 1"] a d e
    by simp
qed

text \<open>
  C9. For every submission, when the Telegram chat id is absent or contains a character
  that is not a digit, \<open>send_telegram\<close> makes no call to \<open>send_message\<close> and its \<open>try\<close>
  block is left by \<open>return\<close>, not by an exception, also when the bot is configured. A digit
  is what \<open>str.isdigit\<close> takes for one; no ASCII character but \<open>0\<close> to \<open>9\<close> is a digit,
  so the minus sign that starts the id of a group (code point 45) is none. A call to
  \<open>send_message\<close> is made only with a bot and a non-empty chat id of digits alone.
\<close>

theorem bad_chat_id_no_dispatch:
  "((get_telegram_chat_id env = None
       \<or> (\<exists>c. get_telegram_chat_id env = Some c \<and> (\<exists>ch \<in> set c. \<not> char_isdigit env ch)))
      \<longrightarrow> send_telegram_try env outcome submission = ([], Done)
          \<and> send_telegram env telegram_bot outcome submission = [])
   \<and> (a < 128 \<and> \<not> (48 \<le> a \<and> a \<le> 57) \<longrightarrow> \<not> char_isdigit env a)
   \<and> (send_telegram env telegram_bot outcome submission \<noteq> []
      \<longrightarrow> telegram_bot
          \<and> (\<exists>c. get_telegram_chat_id env = Some c \<and> c \<noteq> []
                \<and> (\<forall>ch \<in> set c. char_isdigit env ch)))"
proof -
  have p1: "(get_telegram_chat_id env = None
       \<or> (\<exists>c. get_telegram_chat_id env = Some c \<and> (\<exists>ch \<in> set c. \<not> char_isdigit env ch)))
      \<longrightarrow> send_telegram_try env outcome submission = ([], Done)
          \<and> send_telegram env telegram_bot outcome submission = []"
    by (auto simp: send_telegram_def send_telegram_try_def isdigit_def list_all_iff)
  have p2: "a < 128 \<and> \<not> (48 \<le> a \<and> a \<le> 57) \<longrightarrow> \<not> char_isdigit env a"
    by (simp add: char_isdigit_def)
  have p3: "send_telegram env telegram_bot outcome submission \<noteq> []
      \<longrightarrow> telegram_bot
          \<and> (\<exists>c. get_telegram_chat_id env = Some c \<and> c \<noteq> []
                \<and> (\<forall>ch \<in> set c. char_isdigit env ch))"
    by (auto simp: send_telegram_def send_telegram_try_def isdigit_def list_all_iff
        split: option.splits if_splits)
  from p1 p2 p3 show ?thesis by (intro conjI)
qed

text \<open>A group id with its minus sign is not sent to; the id \<open>12345\<close> is, and so is the id
  123 written in Arabic-Indic digits; for a superscript two \<open>isdigit\<close> holds, \<open>int\<close> raises
  and nothing is sent.\<close>

theorem bad_chat_id_no_dispatch_witness:
  "get_telegram_chat_id (example_env_chat (codepoints ''-1001234567''))
     = Some (codepoints ''-1001234567'')
   \<and> hd (codepoints ''-1001234567'') = 45
   \<and> \<not> char_isdigit (example_env_chat (codepoints ''-1001234567'')) 45
   \<and> send_telegram_try (example_env_chat (codepoints ''-1001234567'')) TgSent
        [(''Name'', ''Alice'')] = ([], Done)
   \<and> send_telegram (example_env_chat (codepoints ''-1001234567'')) True TgSent
        [(''Name'', ''Alice'')] = []
   \<and> send_telegram example_env True TgSent [(''Name'', ''Alice'')]
       = [TelegramSend 12345 [(''Name'', ''Alice'')] True]
   \<and> list_all (char_isdigit example_env) (codepoints ''12345'')
   \<and> send_telegram (example_env_chat [1633, 1634, 1635]) True TgSent [(''Name'', ''Alice'')]
       = [TelegramSend 123 [(''Name'', ''Alice'')] True]
   \<and> isdigit (example_env_chat [178]) [178]
   \<and> send_telegram_try (example_env_chat [178]) TgSent [(''Name'', ''Alice'')] = ([], Raised)
   \<and> send_telegram (example_env_chat [178]) True TgSent [(''Name'', ''Alice'')] = []"
proof -
  let ?e = "example_env_chat (codepoints ''-1001234567'')"
  have g: "get_telegram_chat_id ?e = Some (codepoints ''-1001234567'')"
    by (simp add: example_defs get_telegram_chat_id_def)
  have m: "hd (codepoints ''-1001234567'') = 45"
    by (simp add: codepoints_def)
  have i: "(45::nat) \<in> set (codepoints ''-1001234567'')"
    by (simp add: codepoints_def)
  have q: "(45::nat) < 128 \<and> \<not> (48 \<le> (45::nat) \<and> (45::nat) \<le> 57)"
    by simp
  have nd: "\<not> char_isdigit ?e 45"
    using bad_chat_id_no_dispatch [of ?e TgSent "[(''Name'', ''Alice'')]" True 45] q
    by blast
  have h: "get_telegram_chat_id ?e = None
      \<or> (\<exists>c. get_telegram_chat_id ?e = Some c \<and> (\<exists>ch \<in> set c. \<not> char_isdigit ?e ch))"
    using g i nd by blast
  have c: "send_telegram_try ?e TgSent [(''Name'', ''Alice'')] = ([], Done)
      \<and> send_telegram ?e True TgSent [(''Name'', ''Alice'')] = []"
    using bad_chat_id_no_dispatch [of ?e TgSent "[(''Name'', ''Alice'')]" True 45] h
    by blast
  have b: "send_telegram example_env True TgSent [(''Name'', ''Alice'')]
       = [TelegramSend 12345 [(''Name'', ''Alice'')] True]"
    by (simp add: example_defs send_telegram_def send_telegram_try_def get_telegram_chat_id_def
        isdigit_def char_isdigit_def codepoints_def py_int_def digit_value_def)
  then have n: "send_telegram example_env True TgSent [(''Name'', ''Alice'')] \<noteq> []"
    by simp
  have ge: "get_telegram_chat_id example_env = Some (codepoints ''12345'')"
    by (simp add: example_defs get_telegram_chat_id_def)
  have "\<exists>c. get_telegram_chat_id example_env = Some c \<and> c \<noteq> []
      \<and> (\<forall>ch \<in> set c. char_isdigit example_env ch)"
    using bad_chat_id_no_dispatch [of example_env TgSent "[(''Name'', ''Alice'')]" True 45] n
    by blast
  then have d: "list_all (char_isdigit example_env) (codepoints ''12345'')"
    using ge by (auto simp: list_all_iff)
  have a1: "send_telegram (example_env_chat [1633, 1634, 1635]) True TgSent [(''Name'', ''Alice'')]
       = [TelegramSend 123 [(''Name'', ''Alice'')] True]"
    by (simp add: example_defs send_telegram_def send_telegram_try_def get_telegram_chat_id_def
        isdigit_def char_isdigit_def py_int_def digit_value_def)
  have s1: "isdigit (example_env_chat [178]) [178]"
    by (simp add: example_defs isdigit_def char_isdigit_def)
  have s2: "send_telegram_try (example_env_chat [178]) TgSent [(''Name'', ''Alice'')] = ([], Raised)"
    by (simp add: example_defs send_telegram_try_def get_telegram_chat_id_def
        isdigit_def char_isdigit_def py_int_def digit_value_def)
  then have s3: "send_telegram (example_env_chat [178]) True TgSent [(''Name'', ''Alice'')] = []"
    by (simp add: send_telegram_def)
  from g m nd c b d a1 s1 s2 s3 show ?thesis by (intro conjI) blast+
qed

text \<open>
  C10. For every header list \<open>H\<close> and row \<open>r\<close> with \<open>len(r) > len(H)\<close>, the cells
  \<open>r[len(H):]\<close> are dropped: the keys of the submission are exactly the names in \<open>H\<close>, the
  submission is the one built from the first \<open>len(H)\<close> cells alone, and a name takes the
  cell of its last position in \<open>H\<close> (a later duplicate overwrites an earlier one).
\<close>

theorem long_row_truncated:
  assumes "length H < length r"
  shows "fst ` set (build_submission H r) = set H
    \<and> build_submission H r = build_submission H (take (length H) r)
    \<and> (\<forall>j < length H. H ! j \<notin> set (drop (Suc j) H)
          \<longrightarrow> map_of (build_submission H r) (H ! j) = Some (r ! j))"
proof -
  have k: "fst ` set (build_submission H r) = set H"
    by (simp add: build_submission_def build_from_keys)
  have t: "build_submission H r = build_submission H (take (length H) r)"
    by (simp add: build_submission_def build_from_take)
  have v: "\<forall>j < length H. H ! j \<notin> set (drop (Suc j) H)
          \<longrightarrow> map_of (build_submission H r) (H ! j) = Some (r ! j)"
    using assms by (auto simp: build_submission_last cell_def)
  from k t v show ?thesis by simp
qed

theorem long_row_truncated_witness:
  "length [''A'', ''B'', ''A''] < length [''x'', ''y'', ''z'', ''extra'']
   \<and> build_submission [''A'', ''B'', ''A''] [''x'', ''y'', ''z'', ''extra'']
       = [(''A'', ''z''), (''B'', ''y'')]
   \<and> fst ` set (build_submission [''A'', ''B'', ''A''] [''x'', ''y'', ''z'', ''extra''])
       = set [''A'', ''B'', ''A'']
   \<and> build_submission [''A'', ''B'', ''A''] (take 3 [''x'', ''y'', ''z'', ''extra''])
       = [(''A'', ''z''), (''B'', ''y'')]
   \<and> [''A'', ''B'', ''A''] ! 2 \<notin> set (drop (Suc 2) [''A'', ''B'', ''A''])
   \<and> map_of (build_submission [''A'', ''B'', ''A''] [''x'', ''y'', ''z'', ''extra''])
        ([''A'', ''B'', ''A''] ! 2) = Some ([''x'', ''y'', ''z'', ''extra''] ! 2)"
proof -
  have a: "length [''A'', ''B'', ''A''] < length [''x'', ''y'', ''z'', ''extra'']" by simp
  have b: "build_submission [''A'', ''B'', ''A''] [''x'', ''y'', ''z'', ''extra'']
       = [(''A'', ''z''), (''B'', ''y'')]"
    by (simp add: build_submission_def cell_def)
  have c: "length [''A'', ''B'', ''A''] = 3" by simp
  have l: "(2::nat) < length [''A'', ''B'', ''A'']" by simp
  have o: "[''A'', ''B'', ''A''] ! 2 \<notin> set (drop (Suc 2) [''A'', ''B'', ''A''])" by simp
  from long_row_truncated [OF a]
  have k: "fst ` set (build_submission [''A'', ''B'', ''A''] [''x'', ''y'', ''z'', ''extra''])
       = set [''A'', ''B'', ''A'']"
    and t: "build_submission [''A'', ''B'', ''A''] [''x'', ''y'', ''z'', ''extra'']
       = build_submission [''A'', ''B'', ''A'']
           (take (length [''A'', ''B'', ''A'']) [''x'', ''y'', ''z'', ''extra''])"
    and v: "\<forall>j < length [''A'', ''B'', ''A''].
        [''A'', ''B'', ''A''] ! j \<notin> set (drop (Suc j) [''A'', ''B'', ''A''])
          \<longrightarrow> map_of (build_submission [''A'', ''B'', ''A''] [''x'', ''y'', ''z'', ''extra''])
                ([''A'', ''B'', ''A''] ! j) = Some ([''x'', ''y'', ''z'', ''extra''] ! j)"
    by blast+
  from t b c have t': "build_submission [''A'', ''B'', ''A''] (take 3 [''x'', ''y'', ''z'', ''extra''])
       = [(''A'', ''z''), (''B'', ''y'')]"
    by (simp only:)
  from v l o have m: "map_of (build_submission [''A'', ''B'', ''A''] [''x'', ''y'', ''z'', ''extra''])
        ([''A'', ''B'', ''A''] ! 2) = Some ([''x'', ''y'', ''z'', ''extra''] ! 2)"
    by blast
  from a b k t' o m show ?thesis by (intro conjI)
qed

end
